theory Spec2Isabelle
  imports Main
begin

section \<open>Data model\<close>

subsection \<open>Go error values and their capabilities\<close>

text \<open>
  A Go \<^verbatim>\<open>error\<close> is an interface value: either nil or a concrete value with an
  \<^verbatim>\<open>Error() string\<close> method. \<^verbatim>\<open>alert.go\<close> probes four further methods by type
  assertion: \<^verbatim>\<open>Title() string\<close>, \<^verbatim>\<open>Frames() []debug.Frame\<close>, \<^verbatim>\<open>Unwrap() error\<close> and
  \<^verbatim>\<open>Cause() error\<close>. A non-nil error is modelled by what these methods return; a
  capability the concrete type does not have is \<open>None\<close>. \<open>Unwrap\<close> and \<open>Cause\<close> return an
  \<^verbatim>\<open>error\<close> again, which may be nil: \<open>Some None\<close> is "has the method, the method returns
  nil". An \<^verbatim>\<open>error\<close> variable of the source is a \<open>goerror option\<close>. The methods are
  the caller's code; they are taken to return, and a chain of causes is finite.
\<close>

record frame =
  Line :: int
  File :: string
  Path :: string
  Name :: string

datatype goerror = GoError
  (ErrorMsg: string)
  (TypeName: string)
  (TitleCap: "string option")
  (FramesCap: "frame list option")
  (UnwrapCap: "goerror option option")
  (CauseCap: "goerror option option")

subsection \<open>The tracker's event shapes\<close>

text \<open>
  The fields of \<^verbatim>\<open>sentry.Frame\<close>, \<^verbatim>\<open>sentry.Stacktrace\<close>, \<^verbatim>\<open>sentry.Exception\<close> and
  \<^verbatim>\<open>sentry.Event\<close> that \<^verbatim>\<open>alert.go\<close> writes; every other field keeps its zero value.
  A \<^verbatim>\<open>*sentry.Stacktrace\<close> may be nil, hence \<open>stacktrace option\<close>. Go maps
  (\<^verbatim>\<open>map[string]interface{}\<close>) are association lists in the order a \<^verbatim>\<open>range\<close> visits
  them, \<open>[]\<close> for a nil or empty map; \<open>'v\<close> stands for the values of \<^verbatim>\<open>interface{}\<close>.
\<close>

record sentry_frame =
  Lineno :: int
  Filename :: string
  AbsPath :: string
  Function :: string

record stacktrace =
  Frames :: "sentry_frame list"

record exception =
  Value :: string
  Type :: string
  Stacktrace :: "stacktrace option"

datatype level = LevelDebug | LevelInfo | LevelWarning | LevelError | LevelFatal

record 'v event =
  ev_Level :: level
  ev_Extra :: "(string \<times> 'v) list"
  ev_Message :: string
  ev_Exception :: "exception list"

text \<open>A panic carries a value: an error passed to \<^verbatim>\<open>panic\<close>, or the runtime's nil
  dereference (a method called on a nil interface).\<close>

datatype panic = PanicError goerror | NilDereference

section \<open>Stacktrace unwinder\<close>

definition maxErrorDepth :: nat where
  "maxErrorDepth = 3"

text \<open>\<^verbatim>\<open>maybeUnwrap\<close>: the result of \<^verbatim>\<open>Unwrap()\<close> when the error has that method (nil
  included), the error itself otherwise.\<close>

definition maybeUnwrap :: "goerror \<Rightarrow> goerror option" where
  "maybeUnwrap err = (case UnwrapCap err of Some r \<Rightarrow> r | None \<Rightarrow> Some err)"

definition to_sentry_frame :: "frame \<Rightarrow> sentry_frame" where
  "to_sentry_frame e = \<lparr>Lineno = Line e, Filename = File e, AbsPath = Path e, Function = Name e\<rparr>"

definition zero_frame :: sentry_frame where
  "zero_frame = \<lparr>Lineno = 0, Filename = [], AbsPath = [], Function = []\<rparr>"

text \<open>The loop of \<^verbatim>\<open>convertStacktrace\<close>: \<open>n\<close> is \<^verbatim>\<open>len(frames)\<close>, \<open>i\<close> the index of the
  frame \<open>e\<close> at the head of the frames still to visit, \<open>conv\<close> the slice being filled by
  \<^verbatim>\<open>conv[len(frames)-i-1] = ...\<close>.\<close>

fun convert_loop :: "nat \<Rightarrow> nat \<Rightarrow> frame list \<Rightarrow> sentry_frame list \<Rightarrow> sentry_frame list" where
  "convert_loop n i [] conv = conv"
| "convert_loop n i (e # es) conv = convert_loop n (Suc i) es (conv[n - i - 1 := to_sentry_frame e])"

definition convertStacktrace :: "frame list \<Rightarrow> stacktrace" where
  "convertStacktrace frames =
     \<lparr>Frames = convert_loop (length frames) 0 frames (replicate (length frames) zero_frame)\<rparr>"

text \<open>\<^verbatim>\<open>extractStacktrace\<close>; \<open>sx\<close> is \<^verbatim>\<open>sentry.ExtractStacktrace\<close>, the tracker library's own
  extraction, which may return nil.\<close>

definition extractStacktrace ::
  "(goerror \<Rightarrow> stacktrace option) \<Rightarrow> goerror \<Rightarrow> goerror option \<times> stacktrace option" where
  "extractStacktrace sx err =
     (case FramesCap err of
        Some fs \<Rightarrow> (maybeUnwrap err, Some (convertStacktrace fs))
      | None \<Rightarrow> (Some err, sx err))"

section \<open>Event builder\<close>

text \<open>The type switch that ends each iteration of the loop in \<^verbatim>\<open>eventFromError\<close>:
  \<^verbatim>\<open>Unwrap()\<close> first, \<^verbatim>\<open>Cause()\<close> second, nil otherwise.\<close>

definition unwrap_or_cause :: "goerror \<Rightarrow> goerror option" where
  "unwrap_or_cause prev =
     (case UnwrapCap prev of
        Some r \<Rightarrow> r
      | None \<Rightarrow> (case CauseCap prev of Some r \<Rightarrow> r | None \<Rightarrow> None))"

text \<open>The description appended for the error \<open>err\<close> with the stack \<open>stack\<close>.\<close>

definition describe :: "goerror \<Rightarrow> stacktrace option \<Rightarrow> exception" where
  "describe err stack = \<lparr>Value = ErrorMsg err, Type = TypeName err, Stacktrace = stack\<rparr>"

text \<open>
  The loop \<^verbatim>\<open>for i := 0; i < maxErrorDepth && err != nil; i++\<close>, with the exception list
  built so far as the accumulator. \<^verbatim>\<open>extractStacktrace\<close> replaces \<^verbatim>\<open>err\<close>; the next
  statement calls \<^verbatim>\<open>err.Error()\<close>, which panics when the replacement is nil.
\<close>

function unwind_loop ::
  "(goerror \<Rightarrow> stacktrace option) \<Rightarrow> nat \<Rightarrow> goerror option \<Rightarrow> exception list \<Rightarrow> panic + exception list" where
  "unwind_loop sx i err acc =
     (if i < maxErrorDepth then
        (case err of
           None \<Rightarrow> Inr acc
         | Some e \<Rightarrow>
             (case extractStacktrace sx e of
                (None, stack) \<Rightarrow> Inl NilDereference
              | (Some e', stack) \<Rightarrow>
                  unwind_loop sx (Suc i) (unwrap_or_cause e') (acc @ [describe e' stack])))
      else Inr acc)"
  by pat_completeness auto
termination
  by (relation "measure (\<lambda>(sx, i, err, acc). maxErrorDepth - i)") auto

text \<open>\<^verbatim>\<open>reverse\<close> swaps in place, \<^verbatim>\<open>i\<close> running from \<^verbatim>\<open>len(a)/2 - 1\<close> down to 0.
  \<open>reverse_loop k a\<close> is the loop with \<open>k\<close> iterations left, that is at \<open>i = k - 1\<close>.\<close>

fun reverse_loop :: "nat \<Rightarrow> 'a list \<Rightarrow> 'a list" where
  "reverse_loop 0 a = a"
| "reverse_loop (Suc i) a =
     (let opp = length a - 1 - i in reverse_loop i (a[i := a ! opp, opp := a ! i]))"

definition reverse :: "'a list \<Rightarrow> 'a list" where
  "reverse a = reverse_loop (length a div 2) a"

text \<open>\<^verbatim>\<open>eventFromError\<close>. \<^verbatim>\<open>sentry.NewEvent()\<close> gives an event with no message and no
  exceptions; a panic in the loop leaves no event.\<close>

definition eventFromError ::
  "(goerror \<Rightarrow> stacktrace option) \<Rightarrow> goerror option \<Rightarrow> level \<Rightarrow> (string \<times> 'v) list \<Rightarrow> panic + 'v event" where
  "eventFromError sx err lvl extra =
     (let message = (case err of
                       None \<Rightarrow> []
                     | Some e \<Rightarrow> (case TitleCap e of Some t \<Rightarrow> t | None \<Rightarrow> []))
      in case unwind_loop sx 0 err [] of
           Inl p \<Rightarrow> Inl p
         | Inr excs \<Rightarrow>
             Inr \<lparr>ev_Level = lvl, ev_Extra = extra, ev_Message = message, ev_Exception = reverse excs\<rparr>)"

subsection \<open>Error chains\<close>

text \<open>The chain of an error, as the loop of \<^verbatim>\<open>eventFromError\<close> follows it without the
  unwinder: the error, then what \<^verbatim>\<open>Unwrap()\<close> (or else \<^verbatim>\<open>Cause()\<close>) returns, and so on
  until nil. Its length is the depth of the chain.\<close>

function error_chain :: "goerror option \<Rightarrow> goerror list" where
  "error_chain None = []"
| "error_chain (Some e) = e # error_chain (unwrap_or_cause e)"
  by pat_completeness auto
termination
proof (relation "measure (\<lambda>err. case err of None \<Rightarrow> 0 | Some e \<Rightarrow> Suc (size e))")
  fix e
  show "(unwrap_or_cause e, Some e) \<in> measure (\<lambda>err. case err of None \<Rightarrow> 0 | Some e \<Rightarrow> Suc (size e))"
    by (cases e) (auto simp: unwrap_or_cause_def split: option.splits)
qed simp


section \<open>Context composer\<close>

text \<open>\<^verbatim>\<open>option.go\<close>. A \<^verbatim>\<open>*router.Request\<close> is seen through the three things \<^verbatim>\<open>alert.go\<close>
  reads from it: \<^verbatim>\<open>Method\<close>, \<^verbatim>\<open>URL.String()\<close> and \<^verbatim>\<open>OriginAddr()\<close>; the pointer may be
  nil. An \<^verbatim>\<open>Option\<close> is any function from contexts to contexts.\<close>

record request =
  Method :: string
  URL :: string
  OriginAddr :: string

record 'v Context =
  Request :: "request option"
  Tags :: "(string \<times> 'v) list"
  Extra :: "(string \<times> 'v) list"

type_synonym 'v Option = "'v Context \<Rightarrow> 'v Context"

definition WithRequest :: "request option \<Rightarrow> 'v Option" where
  "WithRequest req = (\<lambda>c. c\<lparr>Request := req\<rparr>)"

definition WithTags :: "(string \<times> 'v) list \<Rightarrow> 'v Option" where
  "WithTags tags = (\<lambda>c. c\<lparr>Tags := tags\<rparr>)"


text \<open>\<^verbatim>\<open>var cxt Context\<close>: the zero value.\<close>

definition Context_zero :: "'v Context" where
  "Context_zero = \<lparr>Request = None, Tags = [], Extra = []\<rparr>"

text \<open>The loop \<^verbatim>\<open>for _, o := range opts { cxt = o(cxt) }\<close> of \<^verbatim>\<open>Alerter.Error\<close>.\<close>

fun apply_opts :: "'v Context \<Rightarrow> 'v Option list \<Rightarrow> 'v Context" where
  "apply_opts cxt [] = cxt"
| "apply_opts cxt (o1 # opts) = apply_opts (o1 cxt) opts"

text \<open>Lines 131-134 of \<^verbatim>\<open>Alerter.Error\<close>: the context of one call.\<close>

definition compose_context :: "'v Option list \<Rightarrow> 'v Context" where
  "compose_context opts = apply_opts Context_zero opts"

section \<open>Sinks\<close>

text \<open>
  The tracker and the logger are collaborators outside the repository; they are modelled
  as recorders of what they are handed. A tracker client is an opaque handle. A hub holds
  a client (or none) and a scope; \<^verbatim>\<open>Clone\<close> copies the scope, which in a model of values is
  the hub itself. \<^verbatim>\<open>CaptureEvent\<close> hands the event and the hub's scope to the hub's client, and
  does nothing on a hub without a client. A logger is a handler with the attributes
  accumulated by \<^verbatim>\<open>With\<close>; \<^verbatim>\<open>Error\<close> hands the handler one record. The calls into
  the sinks are taken to return.
\<close>

type_synonym client = nat

record user =
  IPAddress :: string

record scope =
  sc_tags :: "string \<rightharpoonup> string"
  sc_request :: "request option"
  sc_user :: user

record hub =
  hub_client :: "client option"
  hub_scope :: scope

definition SetTag :: "scope \<Rightarrow> string \<Rightarrow> string \<Rightarrow> scope" where
  "SetTag s k v = s\<lparr>sc_tags := (sc_tags s)(k \<mapsto> v)\<rparr>"

definition SetRequest :: "scope \<Rightarrow> request \<Rightarrow> scope" where
  "SetRequest s r = s\<lparr>sc_request := Some r\<rparr>"

definition SetUser :: "scope \<Rightarrow> user \<Rightarrow> scope" where
  "SetUser s u = s\<lparr>sc_user := u\<rparr>"

definition BindClient :: "hub \<Rightarrow> client \<Rightarrow> hub" where
  "BindClient h cl = h\<lparr>hub_client := Some cl\<rparr>"

definition Clone :: "hub \<Rightarrow> hub" where
  "Clone h = h"

text \<open>A logger attribute's value is a string the package itself supplies, or a caller's
  \<^verbatim>\<open>interface{}\<close> value passed through.\<close>

datatype 'v field = FString string | FAny 'v

record 'v logger =
  lg_handler :: nat
  lg_attrs :: "(string \<times> 'v field) list"

definition With :: "'v logger \<Rightarrow> (string \<times> 'v field) list \<Rightarrow> 'v logger" where
  "With l kvs = l\<lparr>lg_attrs := lg_attrs l @ kvs\<rparr>"

record 'v log_record =
  rec_handler :: nat
  rec_level :: string
  rec_msg :: string
  rec_attrs :: "(string \<times> 'v field) list"

section \<open>Alerter\<close>

type_synonym ident = nat

record 'v Config =
  Sentry :: "client option"
  Logger :: "'v logger option"
  Channel :: ident
  Component :: string
  Hostname :: string
  Verbose :: bool

record 'v Alerter =
  sentry :: "client option"
  log :: "'v logger option"
  channel :: ident
  component :: string
  hostname :: string
  verbose :: bool

text \<open>
  The state outside a call: the package variable \<^verbatim>\<open>shared\<close>, the tracker library's
  current hub (\<^verbatim>\<open>sentry.CurrentHub()\<close>), and what the two sinks have received so far.
  The package mutex \<^verbatim>\<open>lock\<close> is taken on entry of \<^verbatim>\<open>Init\<close>, \<^verbatim>\<open>Error\<close> and \<^verbatim>\<open>Errorf\<close>
  and released by \<^verbatim>\<open>defer\<close> on every exit, a panic included; in a sequential run it is free
  between calls and carries no state, so it has no field.
\<close>

record 'v world =
  shared :: "'v Alerter option"
  current_hub :: hub
  captured :: "(client \<times> scope \<times> 'v event) list"
  logged :: "'v log_record list"

definition CaptureEvent :: "hub \<Rightarrow> 'v event \<Rightarrow> 'v world \<Rightarrow> 'v world" where
  "CaptureEvent h ev w =
     (case hub_client h of
        None \<Rightarrow> w
      | Some cl \<Rightarrow> w\<lparr>captured := captured w @ [(cl, hub_scope h, ev)]\<rparr>)"

definition Logger_Error :: "'v logger \<Rightarrow> string \<Rightarrow> 'v world \<Rightarrow> 'v world" where
  "Logger_Error l msg w =
     w\<lparr>logged := logged w @
        [\<lparr>rec_handler = lg_handler l, rec_level = ''ERROR'', rec_msg = msg, rec_attrs = lg_attrs l\<rparr>]\<rparr>"

text \<open>Functions of other libraries that \<^verbatim>\<open>alert.go\<close> calls and whose results it only
  passes on: \<^verbatim>\<open>errutil.Refstr\<close>, \<^verbatim>\<open>sentry.ExtractStacktrace\<close>, \<^verbatim>\<open>fmt.Sprint\<close> (of one
  value) and \<^verbatim>\<open>fmt.Errorf\<close> (which never returns nil). They are parameters.\<close>

record 'v externals =
  Refstr :: "goerror option \<Rightarrow> string"
  ExtractStacktrace :: "goerror \<Rightarrow> stacktrace option"
  Sprint :: "'v \<Rightarrow> string"
  fmt_Errorf :: "string \<Rightarrow> 'v list \<Rightarrow> goerror"

definition ErrReinitialized :: goerror where
  "ErrReinitialized =
     GoError ''Cannot initialize more than once'' ''*errors.errorString'' None None None None"

definition ErrUnavailable :: goerror where
  "ErrUnavailable = GoError ''Unavailable'' ''*errors.errorString'' None None None None"

text \<open>\<^verbatim>\<open>New\<close> returns the pair \<^verbatim>\<open>(*Alerter, error)\<close>.\<close>

definition New :: "'v Config \<Rightarrow> 'v world \<Rightarrow> ('v Alerter option \<times> goerror option) \<times> 'v world" where
  "New conf w =
     (let w1 = (case Sentry conf of
                  None \<Rightarrow> w
                | Some cl \<Rightarrow>
                    let hub = BindClient (current_hub w) cl;
                        s = hub_scope hub;
                        s = (if Component conf \<noteq> [] then SetTag s ''component'' (Component conf) else s);
                        s = (if Hostname conf \<noteq> [] then SetTag s ''host'' (Hostname conf) else s)
                    in w\<lparr>current_hub := hub\<lparr>hub_scope := s\<rparr>\<rparr>);
          lg = (case Logger conf of
                  None \<Rightarrow> None
                | Some l \<Rightarrow>
                    let l = (if Component conf \<noteq> []
                             then With l [(''component'', FString (Component conf))] else l);
                        l = (if Hostname conf \<noteq> []
                             then With l [(''host'', FString (Hostname conf))] else l)
                    in Some l)
      in ((Some \<lparr>sentry = Sentry conf, log = lg, channel = Channel conf,
                  component = Component conf, hostname = Hostname conf,
                  verbose = Verbose conf\<rparr>, None), w1))"

subsection \<open>The blocks of \<^verbatim>\<open>Alerter.Error\<close>\<close>

text \<open>Lines 119-122: the per-call copy of the hub.\<close>

definition hub_view :: "'v Alerter \<Rightarrow> 'v world \<Rightarrow> hub option" where
  "hub_view a w = (case sentry a of None \<Rightarrow> None | Some cl \<Rightarrow> Some (Clone (current_hub w)))"

text \<open>Lines 123-129: the per-call logger view.\<close>

definition logger_view :: "'v Alerter \<Rightarrow> string \<Rightarrow> 'v logger option" where
  "logger_view a ref =
     (if verbose a then
        (case log a of
           None \<Rightarrow> None
         | Some l0 \<Rightarrow>
             let l = With l0 [(''alert'', FString ''error'')]
             in Some (if ref \<noteq> [] then With l [(''ref'', FString ref)] else l))
      else None)"

text \<open>Lines 136-147: the request, when the context has one.\<close>

definition with_request ::
  "request option \<Rightarrow> hub option \<times> 'v logger option \<Rightarrow> hub option \<times> 'v logger option" where
  "with_request r hl =
     (case r of
        None \<Rightarrow> hl
      | Some req \<Rightarrow>
          (map_option
             (\<lambda>h. h\<lparr>hub_scope := SetUser (SetRequest (hub_scope h) req) \<lparr>IPAddress = OriginAddr req\<rparr>\<rparr>)
             (fst hl),
           map_option
             (\<lambda>l. With l [(''alert'', FString ''error''),
                           (''request'', FString (Method req @ '' '' @ URL req))])
             (snd hl)))"

text \<open>The two \<^verbatim>\<open>range\<close> loops over a map: tags onto a scope, entries onto a logger.
  The list is the map's entries in the order the traversal visits them.\<close>

fun set_tags :: "('v \<Rightarrow> string) \<Rightarrow> scope \<Rightarrow> (string \<times> 'v) list \<Rightarrow> scope" where
  "set_tags sprint s [] = s"
| "set_tags sprint s ((k, v) # kvs) = set_tags sprint (SetTag s k (sprint v)) kvs"

fun with_fields :: "'v logger \<Rightarrow> (string \<times> 'v) list \<Rightarrow> 'v logger" where
  "with_fields l [] = l"
| "with_fields l ((k, v) # kvs) = with_fields (With l [(k, FAny v)]) kvs"

text \<open>Lines 149-164: the tags, when the context has any.\<close>

definition with_tags ::
  "('v \<Rightarrow> string) \<Rightarrow> string \<Rightarrow> (string \<times> 'v) list \<Rightarrow>
   hub option \<times> 'v logger option \<Rightarrow> hub option \<times> 'v logger option" where
  "with_tags sprint ref tags hl =
     (if length tags > 0 then
        (map_option
           (\<lambda>h. let s = set_tags sprint (hub_scope h) tags;
                    s = (if ref \<noteq> [] then SetTag s ''ref'' ref else s)
                in h\<lparr>hub_scope := s\<rparr>)
           (fst hl),
         map_option (\<lambda>l. with_fields l tags) (snd hl))
      else hl)"

text \<open>Lines 166-172: the extra data, when the context has any; the logger only.\<close>

definition with_extra :: "(string \<times> 'v) list \<Rightarrow> 'v logger option \<Rightarrow> 'v logger option" where
  "with_extra extra l =
     (if length extra > 0 then map_option (\<lambda>l. with_fields l extra) l else l)"

definition captureError ::
  "(goerror \<Rightarrow> stacktrace option) \<Rightarrow> 'v Alerter \<Rightarrow> hub \<Rightarrow> goerror option \<Rightarrow> (string \<times> 'v) list \<Rightarrow>
   'v world \<Rightarrow> (panic + unit) \<times> 'v world" where
  "captureError sx a h err extra w =
     (case eventFromError sx err LevelError extra of
        Inl p \<Rightarrow> (Inl p, w)
      | Inr ev \<Rightarrow> (Inr (), CaptureEvent h ev w))"

text \<open>The per-call hub and logger after lines 117-172.\<close>

definition call_views ::
  "'v externals \<Rightarrow> 'v Alerter \<Rightarrow> goerror option \<Rightarrow> 'v Option list \<Rightarrow> 'v world \<Rightarrow>
   hub option \<times> 'v logger option" where
  "call_views x a err opts w =
     (let ref = Refstr x err;
          cxt = compose_context opts;
          hl = with_request (Request cxt) (hub_view a w, logger_view a ref);
          hl = with_tags (Sprint x) ref (Tags cxt) hl
      in (fst hl, with_extra (Extra cxt) (snd hl)))"

text \<open>\<^verbatim>\<open>Alerter.Error\<close>: the views, then lines 174-179. The last statement calls
  \<^verbatim>\<open>err.Error()\<close> on the error the caller passed.\<close>

definition Alerter_Error ::
  "'v externals \<Rightarrow> 'v Alerter \<Rightarrow> goerror option \<Rightarrow> 'v Option list \<Rightarrow> 'v world \<Rightarrow>
   (panic + unit) \<times> 'v world" where
  "Alerter_Error x a err opts w =
     (let cxt = compose_context opts;
          hl = call_views x a err opts w;
          rw = (case fst hl of
                  None \<Rightarrow> (Inr (), w)
                | Some h \<Rightarrow> captureError (ExtractStacktrace x) a h err (Extra cxt) w)
      in case fst rw of
           Inl p \<Rightarrow> (Inl p, snd rw)
         | Inr u \<Rightarrow>
             (case snd hl of
                None \<Rightarrow> (Inr (), snd rw)
              | Some l \<Rightarrow>
                  if verbose a then
                    (case err of
                       None \<Rightarrow> (Inl NilDereference, snd rw)
                     | Some e \<Rightarrow> (Inr (), Logger_Error l (ErrorMsg e) (snd rw)))
                  else (Inr (), snd rw)))"

definition Alerter_Errorf ::
  "'v externals \<Rightarrow> 'v Alerter \<Rightarrow> string \<Rightarrow> 'v list \<Rightarrow> 'v world \<Rightarrow> (panic + unit) \<times> 'v world" where
  "Alerter_Errorf x a f args w = Alerter_Error x a (Some (fmt_Errorf x f args)) [] w"

section \<open>Process registry\<close>

text \<open>\<^verbatim>\<open>Init\<close> assigns \<^verbatim>\<open>shared\<close> from the result of \<^verbatim>\<open>New\<close> before it looks at the
  error.\<close>

definition Init :: "'v Config \<Rightarrow> 'v world \<Rightarrow> (panic + unit) \<times> 'v world" where
  "Init conf w =
     (if shared w \<noteq> None then (Inl (PanicError ErrReinitialized), w)
      else
        (let r = New conf w;
             w' = (snd r)\<lparr>shared := fst (fst r)\<rparr>
         in case snd (fst r) of
              Some e \<Rightarrow> (Inl (PanicError e), w')
            | None \<Rightarrow> (Inr (), w')))"

definition Default :: "'v world \<Rightarrow> 'v Alerter option" where
  "Default w = shared w"

definition Errorf :: "'v externals \<Rightarrow> string \<Rightarrow> 'v list \<Rightarrow> 'v world \<Rightarrow> (panic + unit) \<times> 'v world" where
  "Errorf x f args w =
     (case shared w of
        Some a \<Rightarrow> Alerter_Errorf x a f args w
      | None \<Rightarrow> (Inr (), w))"

definition Error ::
  "'v externals \<Rightarrow> goerror option \<Rightarrow> 'v Option list \<Rightarrow> 'v world \<Rightarrow> (panic + unit) \<times> 'v world" where
  "Error x err opts w =
     (case shared w of
        Some a \<Rightarrow> Alerter_Error x a err opts w
      | None \<Rightarrow> (Inr (), w))"

section \<open>Concrete inputs\<close>

text \<open>A tracker extraction that finds no stack, and a few error values: a chain of four
  plain errors, an error that carries frames and wraps another, and an error that carries
  frames and whose \<^verbatim>\<open>Unwrap()\<close> returns nil.\<close>

definition sx0 :: "goerror \<Rightarrow> stacktrace option" where
  "sx0 = (\<lambda>e. None)"

definition err_root :: goerror where
  "err_root = GoError ''connection refused'' ''*net.OpError'' None None None None"

definition err_query :: goerror where
  "err_query = GoError ''query failed'' ''*fmt.wrapError'' None None (Some (Some err_root)) None"

definition err_handler :: goerror where
  "err_handler =
     GoError ''handler failed'' ''*app.causeError'' (Some ''Handler failure'') None None
       (Some (Some err_query))"

definition err_request :: goerror where
  "err_request = GoError ''request failed'' ''*fmt.wrapError'' None None (Some (Some err_handler)) None"

definition frame_a :: frame where
  "frame_a = \<lparr>Line = 10, File = ''a.go'', Path = ''/src/a.go'', Name = ''pkg.A''\<rparr>"

definition frame_b :: frame where
  "frame_b = \<lparr>Line = 20, File = ''b.go'', Path = ''/src/b.go'', Name = ''pkg.B''\<rparr>"

definition err_traced :: goerror where
  "err_traced =
     GoError ''traced'' ''*errors.traced'' None (Some [frame_a, frame_b]) (Some (Some err_root)) None"

definition err_nil_unwrap :: goerror where
  "err_nil_unwrap = GoError ''traced'' ''*errors.traced'' None (Some [frame_a]) (Some None) None"

text \<open>Library functions for values of type \<open>string\<close>, a request, a configuration with
  both sinks, and the state of a process before \<^verbatim>\<open>Init\<close>.\<close>

definition x0 :: "string externals" where
  "x0 = \<lparr>Refstr = (\<lambda>err. case err of None \<Rightarrow> [] | Some e \<Rightarrow> ''r1''),
         ExtractStacktrace = sx0,
         Sprint = (\<lambda>v. v),
         fmt_Errorf = (\<lambda>f args. GoError f ''*fmt.wrapError'' None None None None)\<rparr>"

definition req0 :: request where
  "req0 = \<lparr>Method = ''GET'', URL = ''/x'', OriginAddr = ''1.2.3.4''\<rparr>"

definition scope0 :: scope where
  "scope0 = \<lparr>sc_tags = Map.empty, sc_request = None, sc_user = \<lparr>IPAddress = []\<rparr>\<rparr>"

definition hub0 :: hub where
  "hub0 = \<lparr>hub_client = Some 7, hub_scope = scope0\<rparr>"

definition logger0 :: "string logger" where
  "logger0 = \<lparr>lg_handler = 1, lg_attrs = []\<rparr>"

definition conf0 :: "string Config" where
  "conf0 = \<lparr>Sentry = Some 7, Logger = Some logger0, Channel = 0, Component = ''api'',
            Hostname = ''h1'', Verbose = True\<rparr>"

definition alerter0 :: "string Alerter" where
  "alerter0 = \<lparr>sentry = Some 7, log = Some logger0, channel = 0, component = ''api'',
                hostname = ''h1'', verbose = True\<rparr>"

definition err_wrapping_nil_unwrap :: goerror where
  "err_wrapping_nil_unwrap =
     GoError ''save failed: traced'' ''*fmt.wrapError'' None None (Some (Some err_nil_unwrap)) None"



definition world0 :: "string world" where
  "world0 = \<lparr>shared = None, current_hub = \<lparr>hub_client = None, hub_scope = scope0\<rparr>,
             captured = [], logged = []\<rparr>"

section \<open>Properties of the unwinder and the event builder\<close>

lemmas ex_defs = sx0_def err_root_def err_query_def err_handler_def err_request_def
  frame_a_def frame_b_def err_traced_def err_nil_unwrap_def

subsection \<open>The two in-place loops\<close>

lemma convert_loop_eq:
  "length conv = n \<Longrightarrow> i + length es = n \<Longrightarrow>
   convert_loop n i es conv = rev (map to_sentry_frame es) @ drop (length es) conv"
proof (induction es arbitrary: i conv)
  case Nil
  then show ?case by simp
next
  case (Cons e es)
  have k: "n - i - 1 = length es" "n - Suc i = length es" using Cons.prems by simp_all
  have lt: "length es < length conv" using Cons.prems by simp
  have "convert_loop n (Suc i) es (conv[n - i - 1 := to_sentry_frame e]) =
        rev (map to_sentry_frame es) @ drop (length es) (conv[n - i - 1 := to_sentry_frame e])"
    using Cons.prems by (intro Cons.IH) simp_all
  also have "drop (length es) (conv[n - i - 1 := to_sentry_frame e]) =
        to_sentry_frame e # drop (Suc (length es)) conv"
    using lt by (simp add: k Cons_nth_drop_Suc[symmetric])
  finally show ?case by simp
qed

lemma Frames_convertStacktrace:
  "Frames (convertStacktrace fs) = rev (map to_sentry_frame fs)"
  by (simp add: convertStacktrace_def convert_loop_eq)

text \<open>With \<open>k\<close> iterations left to run from \<open>a\<close>, the result has the outer \<open>k\<close>
  positions on both sides mirrored and the middle untouched.\<close>

lemma reverse_loop_nth:
  "k \<le> length a div 2 \<Longrightarrow>
   length (reverse_loop k a) = length a \<and>
   (\<forall>j < length a. reverse_loop k a ! j =
      (if j < k \<or> length a - k \<le> j then a ! (length a - 1 - j) else a ! j))"
proof (induction k arbitrary: a)
  case 0
  then show ?case by simp
next
  case (Suc k)
  let ?opp = "length a - 1 - k"
  let ?a' = "a[k := a ! ?opp, ?opp := a ! k]"
  have kk: "k \<le> length ?a' div 2" using Suc.prems by simp
  note IH = Suc.IH[OF kk]
  have b: "Suc k + Suc k \<le> length a" using Suc.prems by linarith
  show ?case
  proof (intro conjI allI impI)
    show "length (reverse_loop (Suc k) a) = length a"
      using IH by (simp add: Let_def)
  next
    fix j assume j: "j < length a"
    have "reverse_loop (Suc k) a ! j = reverse_loop k ?a' ! j" by (simp add: Let_def)
    also have "\<dots> = (if j < k \<or> length a - k \<le> j then ?a' ! (length a - 1 - j) else ?a' ! j)"
      using IH j by simp
    also have "\<dots> = (if j < Suc k \<or> length a - Suc k \<le> j then a ! (length a - 1 - j) else a ! j)"
      using j b by (auto simp: nth_list_update)
    finally show "reverse_loop (Suc k) a ! j =
      (if j < Suc k \<or> length a - Suc k \<le> j then a ! (length a - 1 - j) else a ! j)" .
  qed
qed

lemma reverse_eq_rev: "reverse a = rev a"
proof (rule nth_equalityI)
  show "length (reverse a) = length (rev a)"
    using reverse_loop_nth[of "length a div 2" a] by (simp add: reverse_def)
next
  fix j assume "j < length (reverse a)"
  then have j: "j < length a"
    using reverse_loop_nth[of "length a div 2" a] by (simp add: reverse_def)
  have "reverse a ! j = (if j < length a div 2 \<or> length a - length a div 2 \<le> j
       then a ! (length a - 1 - j) else a ! j)"
    using reverse_loop_nth[of "length a div 2" a] j by (simp add: reverse_def)
  also have "\<dots> = a ! (length a - 1 - j)"
  proof -
    have "\<not> (j < length a div 2 \<or> length a - length a div 2 \<le> j) \<Longrightarrow> length a - 1 - j = j"
      using j by linarith
    then show ?thesis by auto
  qed
  also have "\<dots> = rev a ! j" using j by (simp add: rev_nth)
  finally show "reverse a ! j = rev a ! j" .
qed

subsection \<open>The unwinding loop\<close>

declare unwind_loop.simps [simp del]

lemma unwind_loop_done: "\<not> i < maxErrorDepth \<Longrightarrow> unwind_loop sx i err acc = Inr acc"
  by (subst unwind_loop.simps) simp

lemma unwind_loop_nil: "unwind_loop sx i None acc = Inr acc"
  by (subst unwind_loop.simps) simp

lemma unwind_loop_step:
  "i < maxErrorDepth \<Longrightarrow> extractStacktrace sx e = (Some e', stack) \<Longrightarrow>
   unwind_loop sx i (Some e) acc =
     unwind_loop sx (Suc i) (unwrap_or_cause e') (acc @ [describe e' stack])"
  by (subst unwind_loop.simps) simp

lemma unwind_loop_panic:
  "i < maxErrorDepth \<Longrightarrow> extractStacktrace sx e = (None, stack) \<Longrightarrow>
   unwind_loop sx i (Some e) acc = Inl NilDereference"
  by (subst unwind_loop.simps) simp

lemma extractStacktrace_plain:
  "FramesCap e = None \<or> UnwrapCap e = None \<Longrightarrow> fst (extractStacktrace sx e) = Some e"
  by (auto simp: extractStacktrace_def maybeUnwrap_def split: option.splits)

lemma unwind_loop_plain:
  "\<forall>e \<in> set (take (maxErrorDepth - i) (error_chain err)). FramesCap e = None \<or> UnwrapCap e = None \<Longrightarrow>
   unwind_loop sx i err acc =
     Inr (acc @ map (\<lambda>e. describe e (snd (extractStacktrace sx e)))
                    (take (maxErrorDepth - i) (error_chain err)))"
proof (induction sx i err acc rule: unwind_loop.induct)
  case (1 sx i err acc)
  show ?case
  proof (cases "i < maxErrorDepth")
    case False
    then show ?thesis by (simp add: unwind_loop_done)
  next
    case lt: True
    then have m: "maxErrorDepth - i = Suc (maxErrorDepth - Suc i)" by simp
    show ?thesis
    proof (cases err)
      case None
      then show ?thesis by (simp add: unwind_loop_nil)
    next
      case (Some e)
      have pl: "FramesCap e = None \<or> UnwrapCap e = None"
        using "1.prems" Some m by simp
      obtain stack where ex: "extractStacktrace sx e = (Some e, stack)"
        using extractStacktrace_plain[OF pl, of sx] by (cases "extractStacktrace sx e") simp
      have rest: "\<forall>e' \<in> set (take (maxErrorDepth - Suc i) (error_chain (unwrap_or_cause e))).
                    FramesCap e' = None \<or> UnwrapCap e' = None"
        using "1.prems" Some m by simp
      have "unwind_loop sx i err acc =
            unwind_loop sx (Suc i) (unwrap_or_cause e) (acc @ [describe e stack])"
        using lt Some ex by (simp add: unwind_loop_step)
      also have "\<dots> = Inr ((acc @ [describe e stack]) @
           map (\<lambda>e. describe e (snd (extractStacktrace sx e)))
               (take (maxErrorDepth - Suc i) (error_chain (unwrap_or_cause e))))"
        using "1.IH"[OF lt Some ex[symmetric] refl rest] .
      finally show ?thesis using Some m ex by simp
    qed
  qed
qed

lemma unwind_loop_appends:
  "unwind_loop sx i err acc = Inr r \<Longrightarrow> take (length acc) r = acc"
proof (induction sx i err acc arbitrary: r rule: unwind_loop.induct)
  case (1 sx i err acc)
  show ?case
  proof (cases "i < maxErrorDepth")
    case False
    then show ?thesis using "1.prems" by (simp add: unwind_loop_done)
  next
    case lt: True
    show ?thesis
    proof (cases err)
      case None
      then show ?thesis using "1.prems" by (simp add: unwind_loop_nil)
    next
      case (Some e)
      obtain e1 stack where ex: "extractStacktrace sx e = (e1, stack)"
        by (cases "extractStacktrace sx e")
      show ?thesis
      proof (cases e1)
        case None
        then show ?thesis using lt Some ex "1.prems"
          by (simp add: unwind_loop_panic)
      next
        case (Some e')
        have "unwind_loop sx (Suc i) (unwrap_or_cause e') (acc @ [describe e' stack]) = Inr r"
          using lt \<open>err = Some e\<close> ex Some "1.prems"
          by (simp add: unwind_loop_step)
        from "1.IH"[OF lt \<open>err = Some e\<close> ex[symmetric] Some this]
        have "take (Suc (length acc)) r = acc @ [describe e' stack]" by simp
        then have "take (length acc) (take (Suc (length acc)) r) = acc" by simp
        then show ?thesis by (simp add: min_def)
      qed
    qed
  qed
qed

subsection \<open>Length and order of the exception list\<close>




subsection \<open>One iteration of the loop, and the final reversal\<close>

text \<open>
  C2 (as amended). In every iteration of the unwinding loop whose unwinder step returns a
  non-nil error, the description appended describes the error that step returns: the
  current error itself, unless the current error exposes both the frame list and
  \<^verbatim>\<open>Unwrap\<close>, in which case it is the unwrapped cause. Its message is that error's
  \<^verbatim>\<open>Error()\<close> result, its type field that error's type name, and it is paired with the
  stack extracted from the current error. The description stays where it was appended,
  and after the loop the whole list is reversed exactly once.
\<close>

theorem unwind_iteration_describes_returned_error:
  assumes "i < maxErrorDepth" and "extractStacktrace sx e = (Some e', stack)"
  shows "unwind_loop sx i (Some e) acc =
           unwind_loop sx (Suc i) (unwrap_or_cause e')
             (acc @ [\<lparr>Value = ErrorMsg e', Type = TypeName e', Stacktrace = stack\<rparr>]) \<and>
         (case FramesCap e of
            None \<Rightarrow> e' = e \<and> stack = sx e
          | Some fs \<Rightarrow>
              stack = Some (convertStacktrace fs) \<and>
              (case UnwrapCap e of None \<Rightarrow> e' = e | Some cause \<Rightarrow> cause = Some e')) \<and>
         (case unwind_loop sx i (Some e) acc of
            Inl p \<Rightarrow> True
          | Inr excs \<Rightarrow> take (Suc (length acc)) excs =
              acc @ [\<lparr>Value = ErrorMsg e', Type = TypeName e', Stacktrace = stack\<rparr>]) \<and>
         map_sum id ev_Exception (eventFromError sx err lvl extra) =
           map_sum id rev (unwind_loop sx 0 err [])"
proof (intro conjI)
  show step: "unwind_loop sx i (Some e) acc =
           unwind_loop sx (Suc i) (unwrap_or_cause e')
             (acc @ [\<lparr>Value = ErrorMsg e', Type = TypeName e', Stacktrace = stack\<rparr>])"
    using unwind_loop_step[OF assms] by (simp add: describe_def)
  show "case FramesCap e of
            None \<Rightarrow> e' = e \<and> stack = sx e
          | Some fs \<Rightarrow>
              stack = Some (convertStacktrace fs) \<and>
              (case UnwrapCap e of None \<Rightarrow> e' = e | Some cause \<Rightarrow> cause = Some e')"
    using assms(2) by (auto simp: extractStacktrace_def maybeUnwrap_def split: option.splits)
  show "case unwind_loop sx i (Some e) acc of
            Inl p \<Rightarrow> True
          | Inr excs \<Rightarrow> take (Suc (length acc)) excs =
              acc @ [\<lparr>Value = ErrorMsg e', Type = TypeName e', Stacktrace = stack\<rparr>]"
  proof (cases "unwind_loop sx i (Some e) acc")
    case (Inl p)
    then show ?thesis by simp
  next
    case (Inr excs)
    then have "unwind_loop sx (Suc i) (unwrap_or_cause e')
             (acc @ [\<lparr>Value = ErrorMsg e', Type = TypeName e', Stacktrace = stack\<rparr>]) = Inr excs"
      using step by simp
    from unwind_loop_appends[OF this] show ?thesis using Inr by simp
  qed
  show "map_sum id ev_Exception (eventFromError sx err lvl extra) =
           map_sum id rev (unwind_loop sx 0 err [])"
    by (cases "unwind_loop sx 0 err []") (simp_all add: eventFromError_def reverse_eq_rev)
qed

text \<open>The theorem at an error that carries two frames and wraps another: the appended
  description is the wrapped error's. And the builder's list for a chain of two plain
  errors is the loop's list reversed.\<close>

theorem unwind_iteration_witness:
  "unwind_loop sx0 0 (Some err_traced) [] =
     unwind_loop sx0 1 None
       [\<lparr>Value = ''connection refused'', Type = ''*net.OpError'',
         Stacktrace = Some (convertStacktrace [frame_a, frame_b])\<rparr>] \<and>
   map_sum id ev_Exception (eventFromError sx0 (Some err_query) LevelError ([] :: (string \<times> string) list)) =
     Inr [\<lparr>Value = ''connection refused'', Type = ''*net.OpError'', Stacktrace = None\<rparr>,
          \<lparr>Value = ''query failed'', Type = ''*fmt.wrapError'', Stacktrace = None\<rparr>]"
proof -
  have lt: "0 < maxErrorDepth" by (simp add: maxErrorDepth_def)
  have ex: "extractStacktrace sx0 err_traced = (Some err_root, Some (convertStacktrace [frame_a, frame_b]))"
    by (simp add: extractStacktrace_def maybeUnwrap_def err_traced_def)
  have loop: "unwind_loop sx0 0 (Some err_query) [] =
      Inr [\<lparr>Value = ''query failed'', Type = ''*fmt.wrapError'', Stacktrace = None\<rparr>,
           \<lparr>Value = ''connection refused'', Type = ''*net.OpError'', Stacktrace = None\<rparr>]"
    by (simp add: unwind_loop_step unwind_loop_nil extractStacktrace_def maxErrorDepth_def
        unwrap_or_cause_def describe_def ex_defs)
  from unwind_iteration_describes_returned_error[OF lt ex,
      of "[]" "Some err_query" LevelError "[] :: (string \<times> string) list"]
  show ?thesis
    by (simp add: loop) (simp add: unwrap_or_cause_def err_root_def)
qed

text \<open>The description is not always that of the loop's current error: at the same
  error, the current error of the first iteration has the message \<open>''traced''\<close>, the
  description appended has the message of its cause, and no entry describes the current
  error.\<close>

theorem iteration_describes_unwrapped_cause:
  "ErrorMsg err_traced = ''traced'' \<and>
   unwind_loop sx0 0 (Some err_traced) [] =
     Inr [\<lparr>Value = ''connection refused'', Type = ''*net.OpError'',
           Stacktrace = Some \<lparr>Frames = [to_sentry_frame frame_b, to_sentry_frame frame_a]\<rparr>\<rparr>]"
  by (simp add: unwind_loop_step unwind_loop_nil extractStacktrace_def maybeUnwrap_def
      maxErrorDepth_def unwrap_or_cause_def describe_def convertStacktrace_def ex_defs)

subsection \<open>The unwinder step on an error with frames\<close>

text \<open>
  C4. When the current error exposes the frame list, one unwinder step produces a stack
  trace with as many frames as the source list, whose \<open>i\<close>-th frame is the conversion
  (line number, file name, absolute path and function name copied) of the source frame at
  index \<open>n - 1 - i\<close>; and the step returns as the remaining error the result of
  \<^verbatim>\<open>Unwrap()\<close> when the error has that capability, the error itself when it has not.
\<close>

theorem extractStacktrace_frames:
  assumes "FramesCap err = Some fs"
  shows "extractStacktrace sx err =
           ((case UnwrapCap err of Some cause \<Rightarrow> cause | None \<Rightarrow> Some err),
            Some (convertStacktrace fs)) \<and>
         length (Frames (convertStacktrace fs)) = length fs \<and>
         (\<forall>i < length fs.
            Frames (convertStacktrace fs) ! i =
              \<lparr>Lineno = Line (fs ! (length fs - 1 - i)), Filename = File (fs ! (length fs - 1 - i)),
               AbsPath = Path (fs ! (length fs - 1 - i)), Function = Name (fs ! (length fs - 1 - i))\<rparr>)"
  using assms
  by (simp add: extractStacktrace_def maybeUnwrap_def Frames_convertStacktrace rev_nth
      to_sentry_frame_def rev_map[symmetric])

text \<open>The theorem at an error with two frames that wraps another, and at an error with
  one frame and no \<^verbatim>\<open>Unwrap\<close>.\<close>

theorem extractStacktrace_frames_witness:
  "extractStacktrace sx0 err_traced = (Some err_root, Some (convertStacktrace [frame_a, frame_b])) \<and>
   Frames (convertStacktrace [frame_a, frame_b]) ! 0 =
     \<lparr>Lineno = 20, Filename = ''b.go'', AbsPath = ''/src/b.go'', Function = ''pkg.B''\<rparr> \<and>
   Frames (convertStacktrace [frame_a, frame_b]) ! 1 =
     \<lparr>Lineno = 10, Filename = ''a.go'', AbsPath = ''/src/a.go'', Function = ''pkg.A''\<rparr> \<and>
   extractStacktrace sx0 (GoError ''traced'' ''*errors.traced'' None (Some [frame_a]) None None) =
     (Some (GoError ''traced'' ''*errors.traced'' None (Some [frame_a]) None None),
      Some (convertStacktrace [frame_a]))"
proof -
  have a: "FramesCap err_traced = Some [frame_a, frame_b]" by (simp add: err_traced_def)
  have b: "FramesCap (GoError ''traced'' ''*errors.traced'' None (Some [frame_a]) None None) = Some [frame_a]"
    by simp
  from extractStacktrace_frames[OF a, of sx0] extractStacktrace_frames[OF b, of sx0]
  show ?thesis
    by (simp add: err_traced_def frame_a_def frame_b_def)
qed

subsection \<open>Severity, payload and title of the event\<close>

text \<open>
  C9. For every error and extra map, an event the builder returns has the severity it was
  called with, the extra map unchanged as payload, and as title the result of
  \<^verbatim>\<open>Title()\<close> when the error exposes that capability, no title (the empty string, the
  zero value) otherwise; and the event that \<^verbatim>\<open>captureError\<close> hands to the tracker is built
  with the error level.
\<close>

theorem eventFromError_fields:
  "(eventFromError sx err lvl extra = Inr ev \<longrightarrow>
      ev_Level ev = lvl \<and> ev_Extra ev = extra \<and>
      ev_Message ev =
        (case err of None \<Rightarrow> [] | Some e \<Rightarrow> (case TitleCap e of Some t \<Rightarrow> t | None \<Rightarrow> []))) \<and>
   (captureError sx a h err extra w = (Inr (), w') \<and> hub_client h = Some cl \<longrightarrow>
      (\<exists>ev. captured w' = captured w @ [(cl, hub_scope h, ev)] \<and>
            ev_Level ev = LevelError \<and> ev_Extra ev = extra \<and>
            ev_Message ev =
              (case err of None \<Rightarrow> [] | Some e \<Rightarrow> (case TitleCap e of Some t \<Rightarrow> t | None \<Rightarrow> []))))"
proof (rule conjI; rule impI)
  assume "eventFromError sx err lvl extra = Inr ev"
  then show "ev_Level ev = lvl \<and> ev_Extra ev = extra \<and>
      ev_Message ev =
        (case err of None \<Rightarrow> [] | Some e \<Rightarrow> (case TitleCap e of Some t \<Rightarrow> t | None \<Rightarrow> []))"
    by (auto simp: eventFromError_def Let_def split: sum.splits)
next
  assume a: "captureError sx a h err extra w = (Inr (), w') \<and> hub_client h = Some cl"
  then obtain ev where ev: "eventFromError sx err LevelError extra = Inr ev"
    and w': "w' = CaptureEvent h ev w"
    by (auto simp: captureError_def split: sum.splits)
  have "captured w' = captured w @ [(cl, hub_scope h, ev)]"
    using a w' by (simp add: CaptureEvent_def)
  moreover have "ev_Level ev = LevelError \<and> ev_Extra ev = extra \<and>
      ev_Message ev =
        (case err of None \<Rightarrow> [] | Some e \<Rightarrow> (case TitleCap e of Some t \<Rightarrow> t | None \<Rightarrow> []))"
    using ev by (auto simp: eventFromError_def Let_def split: sum.splits)
  ultimately show "\<exists>ev. captured w' = captured w @ [(cl, hub_scope h, ev)] \<and>
            ev_Level ev = LevelError \<and> ev_Extra ev = extra \<and>
            ev_Message ev =
              (case err of None \<Rightarrow> [] | Some e \<Rightarrow> (case TitleCap e of Some t \<Rightarrow> t | None \<Rightarrow> []))"
    by blast
qed

lemma eventFromError_err_handler:
  "eventFromError sx0 (Some err_handler) LevelError [(''user'', ''u1'')] =
     Inr \<lparr>ev_Level = LevelError, ev_Extra = [(''user'', ''u1'')], ev_Message = ''Handler failure'',
          ev_Exception =
            [\<lparr>Value = ''connection refused'', Type = ''*net.OpError'', Stacktrace = None\<rparr>,
             \<lparr>Value = ''query failed'', Type = ''*fmt.wrapError'', Stacktrace = None\<rparr>,
             \<lparr>Value = ''handler failed'', Type = ''*app.causeError'', Stacktrace = None\<rparr>]\<rparr>"
  by (simp add: eventFromError_def unwind_loop_step unwind_loop_nil extractStacktrace_def
      maxErrorDepth_def unwrap_or_cause_def describe_def reverse_eq_rev ex_defs)

lemma eventFromError_err_root:
  "eventFromError sx0 (Some err_root) LevelError ([] :: (string \<times> string) list) =
     Inr \<lparr>ev_Level = LevelError, ev_Extra = [], ev_Message = [],
          ev_Exception = [\<lparr>Value = ''connection refused'', Type = ''*net.OpError'', Stacktrace = None\<rparr>]\<rparr>"
  by (simp add: eventFromError_def unwind_loop_step unwind_loop_nil extractStacktrace_def
      maxErrorDepth_def unwrap_or_cause_def describe_def reverse_eq_rev ex_defs)

text \<open>The theorem at an error with a title and an extra map of one entry, and at a
  capture of an error without a title.\<close>

theorem eventFromError_fields_witness:
  "(\<exists>ev. eventFromError sx0 (Some err_handler) LevelError [(''user'', ''u1'')] = Inr ev \<and>
         ev_Level ev = LevelError \<and> ev_Extra ev = [(''user'', ''u1'')] \<and>
         ev_Message ev = ''Handler failure'') \<and>
   (\<exists>ev. captured (snd (captureError sx0 alerter0 hub0 (Some err_root) [] world0)) =
           [(7, scope0, ev)] \<and>
         ev_Level ev = LevelError \<and> ev_Extra ev = [] \<and> ev_Message ev = [])"
proof -
  obtain ev1 where ev1: "eventFromError sx0 (Some err_handler) LevelError [(''user'', ''u1'')] = Inr ev1"
    using eventFromError_err_handler by blast
  have 1: "ev_Level ev1 = LevelError \<and> ev_Extra ev1 = [(''user'', ''u1'')] \<and>
        ev_Message ev1 = ''Handler failure''"
    using eventFromError_fields[of sx0 "Some err_handler" LevelError "[(''user'', ''u1'')]" ev1] ev1
    by (simp add: err_handler_def)
  have c: "captureError sx0 alerter0 hub0 (Some err_root) [] world0 =
           (Inr (), snd (captureError sx0 alerter0 hub0 (Some err_root) [] world0))"
    by (simp add: captureError_def eventFromError_err_root)
  have hc: "hub_client hub0 = Some 7" by (simp add: hub0_def)
  from eventFromError_fields[of sx0 "Some err_root" LevelError "[]" _ alerter0 hub0 world0
      "snd (captureError sx0 alerter0 hub0 (Some err_root) [] world0)" 7] c hc
  have 2: "\<exists>ev. captured (snd (captureError sx0 alerter0 hub0 (Some err_root) [] world0)) =
           [(7, scope0, ev)] \<and>
         ev_Level ev = LevelError \<and> ev_Extra ev = [] \<and> ev_Message ev = []"
    by (simp add: world0_def hub0_def err_root_def)
  show ?thesis using ev1 1 2 by blast
qed

section \<open>Properties of the context composer\<close>








section \<open>Properties of the dispatch\<close>

subsection \<open>Tags on the scope and on the logger\<close>

lemma set_tags_other:
  "k \<notin> fst ` set tags \<Longrightarrow> sc_tags (set_tags sprint s tags) k = sc_tags s k"
  by (induction sprint s tags rule: set_tags.induct) (auto simp: SetTag_def)

lemma set_tags_in:
  "distinct (map fst tags) \<Longrightarrow> (k, v) \<in> set tags \<Longrightarrow>
   sc_tags (set_tags sprint s tags) k = Some (sprint v)"
proof (induction sprint s tags rule: set_tags.induct)
  case (1 sprint s)
  then show ?case by simp
next
  case (2 sprint s k' v' kvs)
  show ?case
  proof (cases "(k, v) = (k', v')")
    case True
    then have "k \<notin> fst ` set kvs" using "2.prems" by auto
    then show ?thesis using True by (simp add: set_tags_other SetTag_def)
  next
    case False
    then have "(k, v) \<in> set kvs" using "2.prems" by auto
    moreover have "distinct (map fst kvs)" using "2.prems" by simp
    ultimately show ?thesis using "2.IH" by simp
  qed
qed


text \<open>The order in which a \<^verbatim>\<open>range\<close> visits a map is not fixed; for the scope it does
  not matter.\<close>

lemma set_tags_order_irrelevant:
  assumes "distinct (map fst tags)" and "distinct (map fst tags')" and "set tags = set tags'"
  shows "sc_tags (set_tags sprint s tags) = sc_tags (set_tags sprint s tags')"
proof
  fix k
  show "sc_tags (set_tags sprint s tags) k = sc_tags (set_tags sprint s tags') k"
  proof (cases "k \<in> fst ` set tags")
    case True
    then obtain v where v: "(k, v) \<in> set tags" by auto
    then have "(k, v) \<in> set tags'" using assms(3) by simp
    then show ?thesis
      using v set_tags_in[OF assms(1) v] set_tags_in[OF assms(2)] by simp
  next
    case False
    then have "k \<notin> fst ` set tags'" using assms(3) by simp
    then show ?thesis using False by (simp add: set_tags_other)
  qed
qed





subsection \<open>A panic that reaches the caller\<close>

lemma eventFromError_nil_unwrap:
  "eventFromError sx0 (Some err_nil_unwrap) lvl extra = Inl NilDereference"
  by (simp add: eventFromError_def unwind_loop_panic extractStacktrace_def maybeUnwrap_def
      err_nil_unwrap_def maxErrorDepth_def)

lemma eventFromError_wrapping_nil_unwrap:
  "eventFromError sx0 (Some err_wrapping_nil_unwrap) lvl extra = Inl NilDereference"
  by (simp add: eventFromError_def unwind_loop_panic unwind_loop_step extractStacktrace_def
      maybeUnwrap_def unwrap_or_cause_def err_nil_unwrap_def err_wrapping_nil_unwrap_def
      maxErrorDepth_def)

lemma Init_conf0_world0:
  "Init conf0 world0 =
     (Inr (),
      \<lparr>shared = Some \<lparr>sentry = Some 7,
                       log = Some \<lparr>lg_handler = 1,
                                   lg_attrs = [(''component'', FString ''api''), (''host'', FString ''h1'')]\<rparr>,
                       channel = 0, component = ''api'', hostname = ''h1'', verbose = True\<rparr>,
       current_hub = \<lparr>hub_client = Some 7,
                      hub_scope = \<lparr>sc_tags = [''component'' \<mapsto> ''api'', ''host'' \<mapsto> ''h1''],
                                   sc_request = None, sc_user = \<lparr>IPAddress = []\<rparr>\<rparr>\<rparr>,
       captured = [], logged = []\<rparr>)"
  by (simp add: Init_def New_def Let_def world0_def conf0_def logger0_def scope0_def
      BindClient_def SetTag_def With_def)

text \<open>
  C3. \<^verbatim>\<open>Error\<close> is meant never to panic on a non-nil error, whatever the chain's
  \<^verbatim>\<open>Unwrap\<close> methods return. With a tracker configured, an error that exposes frames and
  whose \<^verbatim>\<open>Unwrap()\<close> returns nil makes \<^verbatim>\<open>extractStacktrace\<close> return a nil error, and
  line 199 calls \<^verbatim>\<open>Error()\<close> on it: the call panics and leaves the state as it was, for
  such an error passed directly and for one wrapped one level down.
\<close>

theorem Error_panics_on_nil_unwrap:
  "fst (Init conf0 world0) = Inr () \<and>
   Error x0 (Some err_nil_unwrap) [] (snd (Init conf0 world0)) =
     (Inl NilDereference, snd (Init conf0 world0)) \<and>
   Error x0 (Some err_wrapping_nil_unwrap) [] (snd (Init conf0 world0)) =
     (Inl NilDereference, snd (Init conf0 world0))"
  by (simp add: Init_conf0_world0 Error_def Alerter_Error_def call_views_def hub_view_def
      compose_context_def Context_zero_def with_request_def with_tags_def with_extra_def
      captureError_def eventFromError_nil_unwrap eventFromError_wrapping_nil_unwrap x0_def Let_def)

text \<open>The panic needs a tracker and an error of that shape within reach of the loop:
  without a tracker, or on a chain none of whose first \<open>maxErrorDepth\<close> errors exposes both
  frames and \<^verbatim>\<open>Unwrap\<close>, \<^verbatim>\<open>Alerter.Error\<close> returns for every non-nil error.\<close>

lemma eventFromError_plain_returns:
  assumes "\<forall>e \<in> set (take maxErrorDepth (error_chain err)). FramesCap e = None \<or> UnwrapCap e = None"
  shows "\<exists>ev. eventFromError sx err lvl extra = Inr ev"
proof -
  have "unwind_loop sx 0 err [] =
        Inr (map (\<lambda>e. describe e (snd (extractStacktrace sx e))) (take maxErrorDepth (error_chain err)))"
    using unwind_loop_plain[of 0 err sx "[]"] assms by simp
  then show ?thesis by (simp add: eventFromError_def)
qed

lemma Alerter_Error_returns_on_plain_chain:
  assumes "\<forall>e' \<in> set (take maxErrorDepth (error_chain (Some e))).
             FramesCap e' = None \<or> UnwrapCap e' = None"
  shows "fst (Alerter_Error x a (Some e) opts w) = Inr ()"
proof -
  obtain ev where ev: "eventFromError (ExtractStacktrace x) (Some e) LevelError
                          (Extra (compose_context opts)) = Inr ev"
    using eventFromError_plain_returns[OF assms] by blast
  show ?thesis
    by (simp add: Alerter_Error_def Let_def captureError_def ev split: option.splits)
qed

lemma Alerter_Error_returns_without_tracker:
  assumes "sentry a = None"
  shows "fst (Alerter_Error x a (Some e) opts w) = Inr ()"
proof -
  have "fst (call_views x a (Some e) opts w) = None"
    using assms
    by (simp add: call_views_def hub_view_def with_request_def with_tags_def Let_def
        split: option.splits)
  then show ?thesis
    by (simp add: Alerter_Error_def Let_def split: option.splits)
qed

subsection \<open>One call, end to end\<close>

text \<open>A call with two tags and a request, after \<^verbatim>\<open>Init\<close> with both sinks: the tracker
  receives one event under a scope with the tags, the reference, the request and the
  origin address; the logger receives one record whose message is the message of the
  error passed in.\<close>

lemma Error_dispatch_example:
  "fst (Error x0 (Some err_traced)
          [WithTags [(''env'', ''prod''), (''n'', ''3'')], WithRequest (Some req0)]
          (snd (Init conf0 world0))) = Inr () \<and>
   map (\<lambda>(c, s, ev). (c, sc_tags s ''env'', sc_tags s ''n'', sc_tags s ''ref'',
                        sc_tags s ''component'', sc_user s, sc_request s, map Value (ev_Exception ev)))
     (captured (snd (Error x0 (Some err_traced)
          [WithTags [(''env'', ''prod''), (''n'', ''3'')], WithRequest (Some req0)]
          (snd (Init conf0 world0))))) =
     [(7, Some ''prod'', Some ''3'', Some ''r1'', Some ''api'', \<lparr>IPAddress = ''1.2.3.4''\<rparr>,
       Some req0, [''connection refused''])] \<and>
   logged (snd (Error x0 (Some err_traced)
          [WithTags [(''env'', ''prod''), (''n'', ''3'')], WithRequest (Some req0)]
          (snd (Init conf0 world0)))) =
     [\<lparr>rec_handler = 1, rec_level = ''ERROR'', rec_msg = ''traced'',
       rec_attrs = [(''component'', FString ''api''), (''host'', FString ''h1''),
                    (''alert'', FString ''error''), (''ref'', FString ''r1''),
                    (''alert'', FString ''error''), (''request'', FString ''GET /x''),
                    (''env'', FAny ''prod''), (''n'', FAny ''3'')]\<rparr>]"
proof -
  have ev: "eventFromError sx0 (Some err_traced) LevelError ([] :: (string \<times> string) list) =
     Inr \<lparr>ev_Level = LevelError, ev_Extra = [], ev_Message = [],
          ev_Exception = [\<lparr>Value = ''connection refused'', Type = ''*net.OpError'',
                            Stacktrace = Some (convertStacktrace [frame_a, frame_b])\<rparr>]\<rparr>"
    by (simp add: eventFromError_def unwind_loop_step unwind_loop_nil extractStacktrace_def
        maybeUnwrap_def maxErrorDepth_def unwrap_or_cause_def describe_def reverse_eq_rev
        err_traced_def err_root_def)
  have m: "ErrorMsg err_traced = ''traced''" by (simp add: err_traced_def)
  show ?thesis
    by (simp add: Init_conf0_world0 Error_def Alerter_Error_def call_views_def hub_view_def
        logger_view_def compose_context_def Context_zero_def WithTags_def WithRequest_def
        with_request_def with_tags_def with_extra_def captureError_def ev x0_def Let_def
        Clone_def With_def SetTag_def SetRequest_def SetUser_def CaptureEvent_def
        Logger_Error_def req0_def m)
qed

section \<open>Properties of the process registry\<close>

text \<open>
  C5. If the default alerter is set, \<^verbatim>\<open>Init\<close> panics with \<^verbatim>\<open>ErrReinitialized\<close> and changes
  nothing; in particular, after one \<^verbatim>\<open>Init\<close> has returned, a second one panics and
  \<^verbatim>\<open>Default()\<close> is the alerter the first one installed.
\<close>

theorem Init_twice_panics:
  "(shared w \<noteq> None \<longrightarrow> Init conf w = (Inl (PanicError ErrReinitialized), w)) \<and>
   (Init conf1 w0 = (Inr (), w1) \<longrightarrow>
      Default w1 \<noteq> None \<and>
      Init conf2 w1 = (Inl (PanicError ErrReinitialized), w1) \<and>
      Default (snd (Init conf2 w1)) = Default w1)"
proof (rule conjI; rule impI)
  assume "shared w \<noteq> None"
  then show "Init conf w = (Inl (PanicError ErrReinitialized), w)"
    by (simp add: Init_def)
next
  assume a: "Init conf1 w0 = (Inr (), w1)"
  have s: "shared w1 \<noteq> None"
    using a by (auto simp: Init_def New_def Let_def split: if_splits)
  then have "Init conf2 w1 = (Inl (PanicError ErrReinitialized), w1)"
    by (simp add: Init_def)
  then show "Default w1 \<noteq> None \<and>
      Init conf2 w1 = (Inl (PanicError ErrReinitialized), w1) \<and>
      Default (snd (Init conf2 w1)) = Default w1"
    using s by (simp add: Default_def)
qed

text \<open>The theorem at the initial state: the second configuration names another component,
  and the installed alerter keeps the first.\<close>

theorem Init_twice_panics_witness:
  "fst (Init conf0 world0) = Inr () \<and>
   Init (conf0\<lparr>Component := ''web''\<rparr>) (snd (Init conf0 world0)) =
     (Inl (PanicError ErrReinitialized), snd (Init conf0 world0)) \<and>
   map_option component (Default (snd (Init (conf0\<lparr>Component := ''web''\<rparr>) (snd (Init conf0 world0))))) =
     Some ''api''"
proof -
  have 1: "fst (Init conf0 world0) = Inr ()"
    by (simp add: Init_def New_def Let_def world0_def conf0_def)
  then have i: "Init conf0 world0 = (Inr (), snd (Init conf0 world0))"
    by (simp add: prod_eq_iff)
  have c: "map_option component (Default (snd (Init conf0 world0))) = Some ''api''"
    by (simp add: Init_def New_def Let_def world0_def conf0_def Default_def)
  from Init_twice_panics[of _ _ conf0 world0 "snd (Init conf0 world0)" "conf0\<lparr>Component := ''web''\<rparr>"] i
  have "Init (conf0\<lparr>Component := ''web''\<rparr>) (snd (Init conf0 world0)) =
          (Inl (PanicError ErrReinitialized), snd (Init conf0 world0))"
    and "Default (snd (Init (conf0\<lparr>Component := ''web''\<rparr>) (snd (Init conf0 world0)))) =
         Default (snd (Init conf0 world0))"
    by blast+
  then show ?thesis using 1 c by simp
qed

text \<open>
  C6. If \<^verbatim>\<open>Init\<close> has never been called, a package-level \<^verbatim>\<open>Error\<close> or \<^verbatim>\<open>Errorf\<close> returns
  without a panic and leaves the state, both sinks included, as it was, and \<^verbatim>\<open>Default()\<close>
  is nil.
\<close>

theorem uninitialized_calls_are_noops:
  assumes "shared w = None"
  shows "Error x err opts w = (Inr (), w) \<and> Errorf x f args w = (Inr (), w) \<and> Default w = None"
  using assms by (simp add: Error_def Errorf_def Default_def)

text \<open>The theorem at the initial state, for an error that would panic with a tracker, for
  a nil error and for \<^verbatim>\<open>Errorf\<close>.\<close>

theorem uninitialized_calls_witness:
  "Error x0 (Some err_nil_unwrap) [WithTags [(''env'', ''prod'')]] world0 = (Inr (), world0) \<and>
   Error x0 None [] world0 = (Inr (), world0) \<and>
   Errorf x0 ''failed: %v'' [''x''] world0 = (Inr (), world0) \<and>
   Default world0 = None"
proof -
  have s0: "shared world0 = None" by (simp add: world0_def)
  show ?thesis
    using uninitialized_calls_are_noops[OF s0, of x0 "Some err_nil_unwrap" "[WithTags [(''env'', ''prod'')]]"
        "''failed: %v''" "[''x'']"]
      uninitialized_calls_are_noops[OF s0, of x0 None "[]" "''failed: %v''" "[''x'']"]
    by simp
qed

lemma New_result: "\<exists>a. fst (New conf w) = (Some a, None)"
  by (simp add: New_def Let_def)

text \<open>
  C10. For every configuration, \<^verbatim>\<open>New\<close> returns a non-nil alerter and a nil error; so
  \<^verbatim>\<open>Init\<close> on a state without a default alerter returns and installs that alerter, and
  a panic of \<^verbatim>\<open>Init\<close> is always the one of reinitialization.
\<close>

theorem New_never_fails:
  "(\<exists>a. fst (New conf w) = (Some a, None)) \<and>
   (shared w = None \<longrightarrow> fst (Init conf w) = Inr () \<and> shared (snd (Init conf w)) = fst (fst (New conf w))) \<and>
   (fst (Init conf w) = Inl p \<longrightarrow> p = PanicError ErrReinitialized \<and> shared w \<noteq> None)"
proof (intro conjI impI)
  show "\<exists>a. fst (New conf w) = (Some a, None)" by (rule New_result)
next
  assume "shared w = None"
  then show "fst (Init conf w) = Inr ()"
    using New_result[of conf w] by (auto simp: Init_def Let_def)
next
  assume "shared w = None"
  then show "shared (snd (Init conf w)) = fst (fst (New conf w))"
    using New_result[of conf w] by (auto simp: Init_def Let_def)
next
  assume a: "fst (Init conf w) = Inl p"
  show "p = PanicError ErrReinitialized"
    using a New_result[of conf w] by (auto simp: Init_def Let_def split: if_splits)
  show "shared w \<noteq> None"
    using a New_result[of conf w] by (auto simp: Init_def Let_def split: if_splits)
qed

text \<open>The theorem at the initial state and at the state after one \<^verbatim>\<open>Init\<close>.\<close>

theorem New_never_fails_witness:
  "fst (Init conf0 world0) = Inr () \<and>
   shared (snd (Init conf0 world0)) \<noteq> None \<and>
   fst (Init conf0 (snd (Init conf0 world0))) = Inl (PanicError ErrReinitialized)"
proof -
  have s0: "shared world0 = None" by (simp add: world0_def)
  from New_never_fails[of conf0 world0] s0
  have 1: "fst (Init conf0 world0) = Inr ()"
    and 2: "shared (snd (Init conf0 world0)) = fst (fst (New conf0 world0))"
    and 3: "\<exists>a. fst (New conf0 world0) = (Some a, None)"
    by blast+
  have 4: "shared (snd (Init conf0 world0)) \<noteq> None" using 2 3 by auto
  obtain p where p: "fst (Init conf0 (snd (Init conf0 world0))) = Inl p"
    using 4 by (auto simp: Init_def)
  from New_never_fails[of conf0 "snd (Init conf0 world0)" p] p
  have "p = PanicError ErrReinitialized" by blast
  then show ?thesis using 1 4 p by simp
qed

end
